theory Spec2Isabelle
  imports Complex_Main
begin

section \<open>Conventions\<close>

text \<open>
  The two notebooks compute with Python integers and IEEE doubles.  Python integers
  are modelled by \<^typ>\<open>int\<close>.  A finite double is modelled by the real number it
  stands for, and an operation on doubles by the exact operation on the reals:
  rounding is not modelled, and neither are its two limit cases, a tiny result
  that rounds to zero and the sign of a zero.  Statements that the specification
  phrases ``within a tolerance'' are proved as exact equalities.

  Overflow is modelled where the code can reach it, in the kinetics: there a double
  is a value of the type \<open>np_float\<close> below, which has the two infinities and NaN, and
  every operation returns an infinity when its exact result is too large for a
  double.  The trigonometric code of the first notebook and the literal constants
  of the second cannot overflow and stay in \<^typ>\<open>real\<close>.

  Python exceptions are values of the type \<open>error\<close>; a computation that may raise
  returns \<open>error + 'a\<close>, with \<open>Inl\<close> for the exception.
\<close>

datatype error = ZeroDivisionError | IndexError

section \<open>Roots of unity (cyclotomic notebook)\<close>

text \<open>
  \<^verbatim>\<open>
  def findUnityRoot(n, k):
      return [np.cos(2*np.pi*k / n), np.sin(2*np.pi*k / n)]
  \<close>
  \<open>2*np.pi*k\<close> is a Python float, so dividing it by the integer \<open>n = 0\<close> raises
  \<open>ZeroDivisionError\<close>.  The two-element list is unpacked by the caller at once and
  is modelled as a pair.
\<close>

definition findUnityRoot :: "int \<Rightarrow> int \<Rightarrow> error + (real \<times> real)" where
  "findUnityRoot n k =
     (if n = 0 then Inl ZeroDivisionError
      else Inr (cos (2 * pi * of_int k / of_int n), sin (2 * pi * of_int k / of_int n)))"

text \<open>\<open>range(n)\<close>: the integers \<open>0, \<dots>, n - 1\<close> in increasing order, empty for \<open>n \<le> 0\<close>.\<close>

definition range_py :: "int \<Rightarrow> int list" where
  "range_py n = [0..n - 1]"

text \<open>
  The loop of \<open>plot_funct\<close> that fills the two coordinate lists:
  \<^verbatim>\<open>
  real, imag = [], []
  for k in range(n):
      r, i = findUnityRoot(n, k)
      real.append(r)
      imag.append(i)
  \<close>
  \<open>roots_loop\<close> is the loop over the remaining values of \<open>k\<close>, carrying the two lists;
  \<open>computeRoots\<close> runs it from the empty lists.
\<close>

fun roots_loop :: "int \<Rightarrow> int list \<Rightarrow> real list \<times> real list \<Rightarrow> error + (real list \<times> real list)" where
  "roots_loop n [] (reals, imags) = Inr (reals, imags)"
| "roots_loop n (k # ks) (reals, imags) =
     (case findUnityRoot n k of
        Inl e \<Rightarrow> Inl e
      | Inr (r, i) \<Rightarrow> roots_loop n ks (reals @ [r], imags @ [i]))"

definition computeRoots :: "int \<Rightarrow> error + (real list \<times> real list)" where
  "computeRoots n = roots_loop n (range_py n) ([], [])"

text \<open>
  Python list indexing \<open>x[p]\<close>: a negative index counts from the end, an index out of
  range raises \<open>IndexError\<close>.
\<close>

definition index_py :: "'a list \<Rightarrow> int \<Rightarrow> error + 'a" where
  "index_py xs p =
     (let len = int (length xs); q = (if p < 0 then len + p else p)
      in if 0 \<le> q \<and> q < len then Inr (xs ! nat q) else Inl IndexError)"

text \<open>
  \<^verbatim>\<open>
  def connectpoints(x, y, p1, p2):
      x1, x2 = x[p1], x[p2]
      y1, y2 = y[p1], y[p2]
      plt.plot([x1,x2], [y1,y2], color='b')
  \<close>
  The drawing itself is an effect on the figure; the model returns the segment that is
  drawn, or the exception of the first index that fails.
\<close>

definition connectpoints ::
  "real list \<Rightarrow> real list \<Rightarrow> int \<Rightarrow> int \<Rightarrow> error + ((real \<times> real) \<times> (real \<times> real))" where
  "connectpoints x y p1 p2 =
     (case index_py x p1 of Inl e \<Rightarrow> Inl e | Inr x1 \<Rightarrow>
     (case index_py x p2 of Inl e \<Rightarrow> Inl e | Inr x2 \<Rightarrow>
     (case index_py y p1 of Inl e \<Rightarrow> Inl e | Inr y1 \<Rightarrow>
     (case index_py y p2 of Inl e \<Rightarrow> Inl e | Inr y2 \<Rightarrow>
      Inr ((x1, y1), (x2, y2))))))"

text \<open>
  The edges drawn by the second loop of \<open>plot_funct\<close>:
  \<^verbatim>\<open>
  for p in range(len(real) - 1):
      connectpoints(real, imag, p, p + 1)
      plt.text(real[p+1], imag[p+1]+0.05, ...)
  \<close>
\<close>

fun edges_loop ::
  "real list \<Rightarrow> real list \<Rightarrow> int list \<Rightarrow> error + ((real \<times> real) \<times> (real \<times> real)) list" where
  "edges_loop reals imags [] = Inr []"
| "edges_loop reals imags (p # ps) =
     (case connectpoints reals imags p (p + 1) of Inl e \<Rightarrow> Inl e | Inr seg \<Rightarrow>
     (case index_py reals (p + 1) of Inl e \<Rightarrow> Inl e | Inr _ \<Rightarrow>
     (case index_py imags (p + 1) of Inl e \<Rightarrow> Inl e | Inr _ \<Rightarrow>
     (case edges_loop reals imags ps of Inl e \<Rightarrow> Inl e | Inr segs \<Rightarrow> Inr (seg # segs)))))"

text \<open>
  \<open>plot_funct(n)\<close> as a whole.  \<open>sp.solve(x**n - 1, x)\<close> belongs to SymPy and is the
  parameter \<open>solve\<close>, which may raise; its result is what \<open>plot_funct\<close> returns.  Of
  the plotting calls only those that index the coordinate lists can raise:
  \<^verbatim>\<open>
  connectpoints(real, imag, 0, n - 1)
  plt.text(real[0]+0.01, imag[0], ...)
  for p in range(len(real) - 1): ...
  return roots
  \<close>
\<close>

definition plot_funct :: "(int \<Rightarrow> error + 'r) \<Rightarrow> int \<Rightarrow> error + 'r" where
  "plot_funct solve n =
     (case solve n of Inl e \<Rightarrow> Inl e | Inr roots \<Rightarrow>
     (case computeRoots n of Inl e \<Rightarrow> Inl e | Inr (reals, imags) \<Rightarrow>
     (case connectpoints reals imags 0 (n - 1) of Inl e \<Rightarrow> Inl e | Inr _ \<Rightarrow>
     (case index_py reals 0 of Inl e \<Rightarrow> Inl e | Inr _ \<Rightarrow>
     (case index_py imags 0 of Inl e \<Rightarrow> Inl e | Inr _ \<Rightarrow>
     (case edges_loop reals imags (range_py (int (length reals) - 1)) of
        Inl e \<Rightarrow> Inl e
      | Inr _ \<Rightarrow> Inr roots))))))"

section \<open>Closed-form Michaelis-Menten kinetics\<close>

subsection \<open>The Lambert W function\<close>

text \<open>
  \<^verbatim>\<open>
  def W(z):
      return np.real(lambertw(z, k=0))
  \<close>
  \<open>scipy.special.lambertw\<close> is a library routine and therefore a parameter of the
  model: \<open>lambertw z k\<close> is the complex value of branch \<open>k\<close> at the real argument \<open>z\<close>.
\<close>

definition W :: "(real \<Rightarrow> int \<Rightarrow> complex) \<Rightarrow> real \<Rightarrow> real" where
  "W lambertw z = Re (lambertw z 0)"

text \<open>
  What is assumed of the library routine, on the arguments \<open>z \<ge> 0\<close> that the kinetics
  feed it: branch \<open>0\<close> is real and non-negative there and solves \<open>w * exp w = z\<close>.
\<close>

definition lambertw_principal :: "(real \<Rightarrow> int \<Rightarrow> complex) \<Rightarrow> bool" where
  "lambertw_principal lambertw \<longleftrightarrow>
     (\<forall>z\<ge>0. Im (lambertw z 0) = 0 \<and> 0 \<le> Re (lambertw z 0) \<and>
             Re (lambertw z 0) * exp (Re (lambertw z 0)) = z)"

text \<open>
  A function that meets the assumption: on every branch index it returns the
  non-negative real solution of \<open>w * exp w = z\<close>.
\<close>

definition lambertw_real :: "real \<Rightarrow> int \<Rightarrow> complex" where
  "lambertw_real z k = complex_of_real (THE w. 0 \<le> w \<and> w * exp w = z)"

subsection \<open>Constants of the notebook\<close>

text \<open>
  \<^verbatim>\<open>
  S_0 = 15 # mM
  E_0 = 0.5 # mM
  K_cat = 30 # s^-1
  v_max = K_cat * E_0
  k_1 = 5.5 # s^-1
  k_minus_1 = 0.01 # s^-1
  K_M = (k_minus_1 + K_cat) / k_1
  t_0, t_f, dt = 0, 5, 0.01
  \<close>
  \<open>plot_func\<close> has parameters named \<open>K_M\<close>, \<open>K_cat\<close>, \<open>S_0\<close>, \<open>E_0\<close> and \<open>t_f\<close>
  that hide the globals of the same names; those globals carry the suffix \<open>_global\<close>
  here.  \<open>k_1\<close>, \<open>t_0\<close> and \<open>dt\<close> are read by \<open>plot_func\<close> as globals.
\<close>

definition S_0_global :: real where "S_0_global = 15"
definition E_0_global :: real where "E_0_global = 1 / 2"
definition K_cat_global :: real where "K_cat_global = 30"
definition v_max_global :: real where "v_max_global = K_cat_global * E_0_global"
definition k_1 :: real where "k_1 = 11 / 2"
definition k_minus_1 :: real where "k_minus_1 = 1 / 100"
definition K_M_global :: real where "K_M_global = (k_minus_1 + K_cat_global) / k_1"
definition t_0 :: real where "t_0 = 0"
definition t_f_global :: real where "t_f_global = 5"
definition dt :: real where "dt = 1 / 100"

text \<open>
  The two derived assignments \<open>v_max = K_cat * E_0\<close> and
  \<open>K_M = (k_minus_1 + K_cat) / k_1\<close>, as a function of the four literals they read.
  The operands are Python floats, so a zero divisor raises \<open>ZeroDivisionError\<close>.
  The result is the pair \<open>(K_M, v_max)\<close>.
\<close>

definition deriveParameters :: "real \<Rightarrow> real \<Rightarrow> real \<Rightarrow> real \<Rightarrow> error + (real \<times> real)" where
  "deriveParameters k1 km1 kcat e0 =
     (let v_max = kcat * e0
      in if k1 = 0 then Inl ZeroDivisionError else Inr ((km1 + kcat) / k1, v_max))"

subsection \<open>Doubles with their non-finite values\<close>

datatype np_float = Fin real | PInf | NInf | NaN

text \<open>
  The least magnitude that rounds to an infinity: the largest double is
  \<open>2^1024 - 2^971\<close>, and a result at least half a unit in the last place beyond it
  overflows.
\<close>

definition dbl_overflow :: real where
  "dbl_overflow = 2 ^ 1024 - 2 ^ 970"

definition representable :: "real \<Rightarrow> bool" where
  "representable x \<longleftrightarrow> \<bar>x\<bar> < dbl_overflow"

text \<open>The double that an exact result \<open>x\<close> becomes.\<close>

definition fl :: "real \<Rightarrow> np_float" where
  "fl x = (if dbl_overflow \<le> x then PInf else if x \<le> - dbl_overflow then NInf else Fin x)"

text \<open>
  The sign of a double, and the infinity of a given sign; a sign of zero stands for
  the undefined cases \<open>inf * 0\<close> and \<open>0 / 0\<close>, whose result is NaN.
\<close>

fun np_sign :: "np_float \<Rightarrow> real" where
  "np_sign (Fin x) = sgn x"
| "np_sign PInf = 1"
| "np_sign NInf = - 1"
| "np_sign NaN = 0"

definition inf_of_sign :: "real \<Rightarrow> np_float" where
  "inf_of_sign s = (if 0 < s then PInf else if s < 0 then NInf else NaN)"

fun np_neg :: "np_float \<Rightarrow> np_float" where
  "np_neg (Fin x) = Fin (- x)"
| "np_neg PInf = NInf"
| "np_neg NInf = PInf"
| "np_neg NaN = NaN"

fun np_add :: "np_float \<Rightarrow> np_float \<Rightarrow> np_float" where
  "np_add NaN b = NaN"
| "np_add a NaN = NaN"
| "np_add (Fin x) (Fin y) = fl (x + y)"
| "np_add PInf NInf = NaN"
| "np_add NInf PInf = NaN"
| "np_add PInf b = PInf"
| "np_add a PInf = PInf"
| "np_add NInf b = NInf"
| "np_add a NInf = NInf"

definition np_sub :: "np_float \<Rightarrow> np_float \<Rightarrow> np_float" where
  "np_sub a b = np_add a (np_neg b)"

fun np_mul :: "np_float \<Rightarrow> np_float \<Rightarrow> np_float" where
  "np_mul NaN b = NaN"
| "np_mul a NaN = NaN"
| "np_mul (Fin x) (Fin y) = fl (x * y)"
| "np_mul a b = inf_of_sign (np_sign a * np_sign b)"

text \<open>
  NumPy's division of doubles does not raise: a zero divisor gives an infinity, or
  NaN for \<open>0 / 0\<close>.  The zero divisor is taken to be \<open>+0.0\<close>.
\<close>

fun np_div :: "np_float \<Rightarrow> np_float \<Rightarrow> np_float" where
  "np_div NaN b = NaN"
| "np_div a NaN = NaN"
| "np_div (Fin x) (Fin y) = (if y = 0 then inf_of_sign (sgn x) else fl (x / y))"
| "np_div (Fin x) b = Fin 0"
| "np_div a (Fin y) = inf_of_sign (np_sign a * (if y < 0 then - 1 else 1))"
| "np_div a b = NaN"

fun np_exp :: "np_float \<Rightarrow> np_float" where
  "np_exp (Fin x) = fl (exp x)"
| "np_exp PInf = PInf"
| "np_exp NInf = Fin 0"
| "np_exp NaN = NaN"

text \<open>The comparison \<open>a <= b\<close> of doubles: false as soon as one side is NaN.\<close>

fun np_le :: "np_float \<Rightarrow> np_float \<Rightarrow> bool" where
  "np_le NaN b = False"
| "np_le a NaN = False"
| "np_le (Fin x) (Fin y) = (x \<le> y)"
| "np_le NInf b = True"
| "np_le a PInf = True"
| "np_le a b = False"

text \<open>
  Python's own division of two finite floats raises \<open>ZeroDivisionError\<close> on a zero
  divisor and overflows to an infinity otherwise.
\<close>

definition py_div :: "real \<Rightarrow> real \<Rightarrow> error + np_float" where
  "py_div x y = (if y = 0 then Inl ZeroDivisionError else Inr (fl (x / y)))"

text \<open>
  \<open>W\<close> on a double.  \<open>lambertw\<close> above is the library routine on finite arguments;
  on the non-finite ones SciPy returns its argument for \<open>inf\<close> and for NaN, and the
  negated argument for \<open>-inf\<close>, so the real part is \<open>inf\<close>, NaN and \<open>inf\<close>.
\<close>

fun W_np :: "(real \<Rightarrow> int \<Rightarrow> complex) \<Rightarrow> np_float \<Rightarrow> np_float" where
  "W_np lambertw (Fin z) = Fin (W lambertw z)"
| "W_np lambertw PInf = PInf"
| "W_np lambertw NInf = PInf"
| "W_np lambertw NaN = NaN"

subsection \<open>The species of \<open>plot_func\<close>\<close>

text \<open>
  \<^verbatim>\<open>
  def plot_func(K_M, K_cat, S_0, E_0, t_f):
      v_max = K_cat * E_0
      S = lambda t : K_M * W(S_0 / K_M * np.exp(1 / K_M * (-v_max * t + S_0)))
      ES = lambda t, S : (E_0 * S(t)) / (K_M + S(t)) * (1 - np.exp(-(K_M + S(t)) * k_1 * t))
      E = lambda t, ES : E_0 - ES(t, S)
      P = lambda t, S, ES : S_0 - S(t) - ES(t, S)
      v = lambda t, S : (v_max * S(t)) / (K_M + S(t))
      T = np.arange(t_0, t_f, dt)
  \<close>
  Each lambda is a definition whose first arguments are the variables it captures
  and whose last arguments are its own parameters, in the source's order.  The
  parameters \<open>K_M\<close>, \<open>S_0\<close>, \<open>E_0\<close> and the time \<open>t\<close> are finite doubles, hence reals;
  \<open>v_max\<close> is the product \<open>K_cat * E_0\<close>, a double that may be infinite.

  \<open>S_0 / K_M\<close> and \<open>1 / K_M\<close> divide Python floats and raise \<open>ZeroDivisionError\<close>
  when \<open>K_M = 0\<close>; \<open>S_0 / K_M\<close> is evaluated first.  Every other operation has a
  NumPy double among its operands and does not raise.  The grid \<open>T\<close> is not
  computed here: the properties below hold for any strictly increasing list of
  non-negative times.
\<close>

definition S ::
  "(real \<Rightarrow> int \<Rightarrow> complex) \<Rightarrow> real \<Rightarrow> np_float \<Rightarrow> real \<Rightarrow> real \<Rightarrow> error + np_float" where
  "S lambertw K_M v_max S_0 t =
     (case py_div S_0 K_M of Inl e \<Rightarrow> Inl e | Inr a \<Rightarrow>
     (case py_div 1 K_M of Inl e \<Rightarrow> Inl e | Inr b \<Rightarrow>
      Inr (np_mul (Fin K_M)
            (W_np lambertw
              (np_mul a (np_exp (np_mul b (np_add (np_mul (np_neg v_max) (Fin t)) (Fin S_0)))))))))"

definition ES :: "real \<Rightarrow> real \<Rightarrow> real \<Rightarrow> (real \<Rightarrow> error + np_float) \<Rightarrow> error + np_float" where
  "ES E_0 K_M t S' =
     (case S' t of Inl e \<Rightarrow> Inl e
      | Inr s \<Rightarrow>
          Inr (np_mul (np_div (np_mul (Fin E_0) s) (np_add (Fin K_M) s))
                 (np_sub (Fin 1)
                    (np_exp (np_mul (np_mul (np_neg (np_add (Fin K_M) s)) (Fin k_1)) (Fin t))))))"

definition E ::
  "real \<Rightarrow> (real \<Rightarrow> error + np_float) \<Rightarrow> real \<Rightarrow>
   (real \<Rightarrow> (real \<Rightarrow> error + np_float) \<Rightarrow> error + np_float) \<Rightarrow> error + np_float" where
  "E E_0 S' t ES' =
     (case ES' t S' of Inl e \<Rightarrow> Inl e | Inr es \<Rightarrow> Inr (np_sub (Fin E_0) es))"


definition v :: "np_float \<Rightarrow> real \<Rightarrow> real \<Rightarrow> (real \<Rightarrow> error + np_float) \<Rightarrow> error + np_float" where
  "v v_max K_M t S' =
     (case S' t of Inl e \<Rightarrow> Inl e
      | Inr s \<Rightarrow> Inr (np_div (np_mul v_max s) (np_add (Fin K_M) s)))"

text \<open>
  A list comprehension \<open>[f(t) for t in T]\<close> evaluates \<open>f\<close> from left to right and
  stops at the first exception.  \<open>plot_func\<close> draws the substrate curve
  \<open>[S(t) for t in T]\<close>.
\<close>

fun comprehension :: "('a \<Rightarrow> error + 'b) \<Rightarrow> 'a list \<Rightarrow> error + 'b list" where
  "comprehension f [] = Inr []"
| "comprehension f (t # ts) =
     (case f t of Inl e \<Rightarrow> Inl e | Inr y \<Rightarrow>
     (case comprehension f ts of Inl e \<Rightarrow> Inl e | Inr ys \<Rightarrow> Inr (y # ys)))"

subsection \<open>The quasi-steady-state ratio shown below the plot\<close>

text \<open>
  Python's \<open>round(x, ndigits)\<close> on a float: the nearest multiple of \<open>10 ^ -ndigits\<close>,
  a tie going to the even one.
\<close>

definition round_py :: "real \<Rightarrow> nat \<Rightarrow> real" where
  "round_py x ndigits =
     (let y = x * 10 ^ ndigits; f = \<lfloor>y\<rfloor>; d = y - of_int f
      in of_int (if d < 1 / 2 then f else if 1 / 2 < d then f + 1
                 else if even f then f else f + 1) / 10 ^ ndigits)"

text \<open>
  The markdown cell after the plot prints the ratio with a template expression:
  \<^verbatim>\<open>
  $\frac{E_0}{K_M + S_0} =$ {{round(E_0/(K_M + E_0), 3)}}
  \<close>
  \<open>assumptionRatio\<close> is that expression, as a function of the two globals it reads.
\<close>

definition assumptionRatio :: "real \<Rightarrow> real \<Rightarrow> error + real" where
  "assumptionRatio E_0 K_M =
     (if K_M + E_0 = 0 then Inl ZeroDivisionError else Inr (round_py (E_0 / (K_M + E_0)) 3))"

section \<open>Properties of the roots of unity\<close>

lemma roots_loop_eq:
  "n \<noteq> 0 \<Longrightarrow>
   roots_loop n ks (reals, imags) =
     Inr (reals @ map (\<lambda>k. cos (2 * pi * of_int k / of_int n)) ks,
          imags @ map (\<lambda>k. sin (2 * pi * of_int k / of_int n)) ks)"
  by (induction ks arbitrary: reals imags) (simp_all add: findUnityRoot_def)

lemma computeRoots_eq:
  "n \<noteq> 0 \<Longrightarrow>
   computeRoots n =
     Inr (map (\<lambda>k. cos (2 * pi * of_int k / of_int n)) [0..n - 1],
          map (\<lambda>k. sin (2 * pi * of_int k / of_int n)) [0..n - 1])"
  by (simp add: computeRoots_def range_py_def roots_loop_eq)

lemma computeRoots_empty: "n \<le> 0 \<Longrightarrow> computeRoots n = Inr ([], [])"
  by (simp add: computeRoots_def range_py_def)

lemma upto_as_upt: "[0..n - 1] = map int [0..<nat n]"
  by (rule nth_equalityI) simp_all

lemma sum_list_upto_int: "sum_list (map f [0..n - 1]) = (\<Sum>k<nat n. f (int k))"
  by (simp add: upto_as_upt sum_list_sum_nth o_def atLeast0LessThan)

text \<open>The \<open>n\<close>-th roots of unity add up to zero, by the geometric sum.\<close>

lemma sum_cis_roots:
  assumes "2 \<le> n"
  shows "(\<Sum>k<n. cis (2 * pi * real k / real n)) = 0"
proof -
  define z where "z = cis (2 * pi / real n)"
  have zk: "cis (2 * pi * real k / real n) = z ^ k" for k
    by (simp add: z_def Complex.DeMoivre mult.commute)
  have zn: "z ^ n = 1"
    using assms by (simp add: z_def Complex.DeMoivre)
  have "z \<noteq> 1"
  proof
    assume "z = 1"
    then have "cos (2 * pi / real n) = 1"
      by (simp add: z_def complex_eq_iff)
    then obtain m :: int where m: "2 * pi / real n = of_int m * (2 * pi)"
      by (auto simp: cos_one_2pi_int)
    have "2 * pi * (1 / real n) = 2 * pi * of_int m"
      using m by (simp add: mult.commute)
    then have "1 / real n = of_int m"
      by (simp only: mult_cancel_left) simp
    moreover have "0 < 1 / real n" "1 / real n < 1"
      using assms by simp_all
    ultimately have "0 < (of_int m :: real)" "(of_int m :: real) < 1"
      by simp_all
    then have "0 < m" "m < 1" by simp_all
    then show False by linarith
  qed
  then have "(\<Sum>k<n. z ^ k) = (z ^ n - 1) / (z - 1)"
    by (simp add: geometric_sum)
  then show ?thesis
    by (simp add: zk zn)
qed

lemma sum_cos_roots: "2 \<le> n \<Longrightarrow> (\<Sum>k<n. cos (2 * pi * real k / real n)) = 0"
  using arg_cong [OF sum_cis_roots, of n Re] by simp

lemma sum_sin_roots: "2 \<le> n \<Longrightarrow> (\<Sum>k<n. sin (2 * pi * real k / real n)) = 0"
  using arg_cong [OF sum_cis_roots, of n Im] by simp

text \<open>
  For the values the slider supplies (\<open>n \<ge> 1\<close>) no index of the drawing code is out
  of range, so \<open>plot_funct\<close> returns what the solver returns.
\<close>

lemma edges_loop_ok:
  "length imags = length reals \<Longrightarrow>
   (\<And>p. p \<in> set ps \<Longrightarrow> 0 \<le> p \<and> p + 1 < int (length reals)) \<Longrightarrow>
   \<exists>segs. edges_loop reals imags ps = Inr segs"
proof (induction ps)
  case Nil
  show ?case by simp
next
  case (Cons p ps)
  have p: "0 \<le> p" "p + 1 < int (length reals)"
    using Cons.prems(2) [of p] by simp_all
  obtain segs where "edges_loop reals imags ps = Inr segs"
    using Cons.IH [OF Cons.prems(1)] Cons.prems(2) by auto
  then show ?case
    using p Cons.prems(1) by (simp add: connectpoints_def index_py_def)
qed

lemma plot_funct_ok:
  assumes "1 \<le> n"
  shows "plot_funct solve n = solve n"
proof (cases "solve n")
  case (Inl e)
  then show ?thesis by (simp add: plot_funct_def)
next
  case (Inr roots)
  define reals where "reals = map (\<lambda>k. cos (2 * pi * of_int k / of_int n)) [0..n - 1]"
  define imags where "imags = map (\<lambda>k. sin (2 * pi * of_int k / of_int n)) [0..n - 1]"
  have n: "n \<noteq> 0" using assms by simp
  have cr: "computeRoots n = Inr (reals, imags)"
    by (simp only: computeRoots_eq [OF n] reals_def imags_def)
  have len: "length reals = nat n" "length imags = nat n"
    by (simp_all add: reals_def imags_def)
  have "\<exists>segs. edges_loop reals imags (range_py (int (length reals) - 1)) = Inr segs"
    using assms by (intro edges_loop_ok) (auto simp: len range_py_def)
  then obtain segs where
    segs: "edges_loop reals imags (range_py (int (length reals) - 1)) = Inr segs" ..
  have idx: "\<exists>a. index_py reals 0 = Inr a" "\<exists>a. index_py imags 0 = Inr a"
            "\<exists>a. index_py reals (n - 1) = Inr a" "\<exists>a. index_py imags (n - 1) = Inr a"
    using assms by (simp_all add: index_py_def len)
  then obtain a b c d where
    "index_py reals 0 = Inr a" "index_py imags 0 = Inr b"
    "index_py reals (n - 1) = Inr c" "index_py imags (n - 1) = Inr d"
    by blast
  then show ?thesis
    by (simp add: plot_funct_def Inr cr connectpoints_def segs)
qed

lemma plot_funct_fails:
  "n \<le> 0 \<Longrightarrow> plot_funct solve n = (case solve n of Inl e \<Rightarrow> Inl e | Inr r \<Rightarrow> Inl IndexError)"
  by (simp add: plot_funct_def computeRoots_empty connectpoints_def index_py_def
           split: sum.splits)

text \<open>
  Claim C2.  For every integer \<open>n \<ge> 1\<close> the loop returns exactly \<open>n\<close> points in the
  order of increasing \<open>k\<close>, the \<open>k\<close>-th one being \<open>(cos (2\<pi>k/n), sin (2\<pi>k/n))\<close> for
  \<open>k = 0, \<dots>, n - 1\<close>; for \<open>n = 1\<close> the result is the single point \<open>(1, 0)\<close>.
\<close>

theorem computeRoots_points:
  "(1 \<le> n \<longrightarrow>
      (\<exists>reals imags. computeRoots n = Inr (reals, imags)
         \<and> length reals = nat n \<and> length imags = nat n
         \<and> (\<forall>k<nat n. reals ! k = cos (2 * pi * real k / of_int n)
                      \<and> imags ! k = sin (2 * pi * real k / of_int n))))
   \<and> computeRoots 1 = Inr ([1], [0])"
proof (intro conjI impI)
  assume "1 \<le> n"
  then have "n \<noteq> 0" by simp
  from computeRoots_eq [OF this]
  show "\<exists>reals imags. computeRoots n = Inr (reals, imags)
         \<and> length reals = nat n \<and> length imags = nat n
         \<and> (\<forall>k<nat n. reals ! k = cos (2 * pi * real k / of_int n)
                      \<and> imags ! k = sin (2 * pi * real k / of_int n))"
    by (simp add: upto_as_upt)
next
  have "[0..(1::int) - 1] = [0]" by (simp add: upto.simps)
  then show "computeRoots 1 = Inr ([1], [0])"
    using computeRoots_eq [of 1] by simp
qed

theorem computeRoots_points_witness:
  "(1::int) \<le> 2 \<and>
   (\<exists>reals imags. computeRoots 2 = Inr (reals, imags) \<and> length reals = 2 \<and> length imags = 2
      \<and> reals ! 0 = 1 \<and> imags ! 0 = 0 \<and> reals ! 1 = - 1 \<and> imags ! 1 = 0)"
proof -
  from computeRoots_points [of 2] obtain reals imags where
    r: "computeRoots 2 = Inr (reals, imags)" "length reals = 2" "length imags = 2"
    and k: "\<forall>k<2. reals ! k = cos (2 * pi * real k / 2) \<and> imags ! k = sin (2 * pi * real k / 2)"
    by auto
  from k have "reals ! 0 = 1" "imags ! 0 = 0" "reals ! 1 = - 1" "imags ! 1 = 0"
    by simp_all
  with r show ?thesis by simp
qed

text \<open>
  Claim C9.  For every integer \<open>n > 1\<close> the coordinates of the \<open>n\<close> points returned
  for \<open>n\<close> add up to \<open>(0, 0)\<close> (exactly, over the reals, hence within \<open>1e-6\<close>); for
  \<open>n = 1\<close> the sum is \<open>(1, 0)\<close>.
\<close>

theorem computeRoots_sum:
  "(1 < n \<longrightarrow>
      (\<exists>reals imags. computeRoots n = Inr (reals, imags)
         \<and> sum_list reals = 0 \<and> sum_list imags = 0))
   \<and> (\<exists>reals imags. computeRoots 1 = Inr (reals, imags)
         \<and> sum_list reals = 1 \<and> sum_list imags = 0)"
proof (intro conjI impI)
  assume "1 < n"
  then have n: "n \<noteq> 0" "2 \<le> nat n" "real (nat n) = of_int n" by simp_all
  show "\<exists>reals imags. computeRoots n = Inr (reals, imags)
          \<and> sum_list reals = 0 \<and> sum_list imags = 0"
    using sum_cos_roots [OF n(2)] sum_sin_roots [OF n(2)]
    by (simp add: computeRoots_eq [OF n(1)] sum_list_upto_int n(3))
next
  have "[0..(1::int) - 1] = [0]" by (simp add: upto.simps)
  then show "\<exists>reals imags. computeRoots 1 = Inr (reals, imags)
          \<and> sum_list reals = 1 \<and> sum_list imags = 0"
    using computeRoots_eq [of 1] by simp
qed

theorem computeRoots_sum_witness:
  "(1::int) < 2 \<and>
   (\<exists>reals imags. computeRoots 2 = Inr (reals, imags) \<and> sum_list reals = 0 \<and> sum_list imags = 0)"
  using computeRoots_sum [of 2] by simp

text \<open>
  Claim C4 says that \<open>n \<le> 0\<close> is rejected with \<open>InvalidArgument\<close>.  The loop has no
  such check: \<open>range(n)\<close> is empty, \<open>findUnityRoot\<close> is never called, and the result
  is the pair of empty lists.
\<close>

theorem computeRoots_nonpositive_counterexample:
  "computeRoots 0 = Inr ([], []) \<and> computeRoots (- 3) = Inr ([], [])"
  by (simp add: computeRoots_def range_py_def)

text \<open>
  Claim C4, amended.  For every integer \<open>n \<le> 0\<close> the loop raises nothing and returns
  no points.  \<open>plot_funct\<close> as a whole does not return for such \<open>n\<close>: unless the
  solver has raised before, drawing the closing edge indexes the empty lists and
  raises \<open>IndexError\<close>.
\<close>

theorem computeRoots_nonpositive:
  "n \<le> 0 \<Longrightarrow>
   computeRoots n = Inr ([], [])
   \<and> plot_funct solve n = (case solve n of Inl e \<Rightarrow> Inl e | Inr r \<Rightarrow> Inl IndexError)"
  by (simp add: computeRoots_empty plot_funct_fails)

theorem computeRoots_nonpositive_witness:
  "(- 3 :: int) \<le> 0 \<and> computeRoots (- 3) = Inr ([], [])
   \<and> plot_funct (\<lambda>n. Inr ()) (- 3) = Inl IndexError"
  using computeRoots_nonpositive [of "- 3" "\<lambda>n. Inr ()"] by simp

section \<open>Properties of the Lambert W wrapper\<close>

text \<open>\<open>w * exp w\<close> is strictly increasing, hence injective, on \<open>w \<ge> 0\<close>.\<close>

lemma xexp_strict_mono:
  fixes a b :: real
  assumes "0 \<le> a" and "a < b"
  shows "a * exp a < b * exp b"
proof -
  have "exp a \<le> exp b" using assms(2) by simp
  then have "a * exp a \<le> a * exp b"
    using assms(1) by (rule mult_left_mono)
  also have "a * exp b < b * exp b"
    using assms(2) by (rule mult_strict_right_mono) (rule exp_gt_zero)
  finally show ?thesis .
qed

lemma xexp_inj:
  fixes a b :: real
  assumes "0 \<le> a" and "0 \<le> b" and "a * exp a = b * exp b"
  shows "a = b"
proof (rule ccontr)
  assume "a \<noteq> b"
  then consider "a < b" | "b < a" by linarith
  then show False
  proof cases
    case 1
    from xexp_strict_mono [OF assms(1) this] have "a * exp a < b * exp b" .
    then show False unfolding assms(3) by (simp only: less_irrefl)
  next
    case 2
    from xexp_strict_mono [OF assms(2) this] have "b * exp b < a * exp a" .
    then show False unfolding assms(3) by (simp only: less_irrefl)
  qed
qed

text \<open>Every \<open>z \<ge> 0\<close> is \<open>w * exp w\<close> for some \<open>w\<close> between \<open>0\<close> and \<open>z\<close>.\<close>

lemma xexp_solution_exists:
  fixes z :: real
  assumes "0 \<le> z"
  shows "\<exists>w. 0 \<le> w \<and> w * exp w = z"
proof -
  have "1 \<le> exp z" using assms by simp
  then have "z * 1 \<le> z * exp z"
    using assms by (rule mult_left_mono)
  then have up: "z \<le> z * exp z" by simp
  have lo: "0 * exp (0::real) \<le> z" using assms by simp
  have cont: "continuous_on {0..z} (\<lambda>w::real. w * exp w)"
    by (intro continuous_intros)
  have "\<exists>w\<ge>0. w \<le> z \<and> w * exp w = z"
    by (rule IVT' [of "\<lambda>w. w * exp w", OF lo up assms cont])
  then show ?thesis by blast
qed

text \<open>The assumption on the library routine is satisfiable.\<close>

lemma lambertw_real_principal: "lambertw_principal lambertw_real"
  unfolding lambertw_principal_def
proof (intro allI impI)
  fix z :: real
  assume z: "0 \<le> z"
  define w where "w = (THE w. 0 \<le> w \<and> w * exp w = z)"
  obtain u where u: "0 \<le> u \<and> u * exp u = z"
    using xexp_solution_exists [OF z] by blast
  have "0 \<le> w \<and> w * exp w = z"
    unfolding w_def
  proof (rule theI [of "\<lambda>w. 0 \<le> w \<and> w * exp w = z", OF u])
    fix y
    assume y: "0 \<le> y \<and> y * exp y = z"
    have "y * exp y = u * exp u" using y u by (simp only:)
    with y u show "y = u" by (blast intro: xexp_inj)
  qed
  then show "Im (lambertw_real z 0) = 0 \<and> 0 \<le> Re (lambertw_real z 0) \<and>
             Re (lambertw_real z 0) * exp (Re (lambertw_real z 0)) = z"
    by (simp add: lambertw_real_def w_def)
qed

lemma W_principal:
  assumes "lambertw_principal lambertw" and "0 \<le> z"
  shows "0 \<le> W lambertw z" and "W lambertw z * exp (W lambertw z) = z"
    and "lambertw z 0 = complex_of_real (W lambertw z)"
  using assms by (simp_all add: lambertw_principal_def W_def complex_eq_iff)

lemma W_roundtrip:
  assumes "lambertw_principal lambertw" and "0 \<le> x"
  shows "W lambertw (x * exp x) = x"
proof -
  have "0 \<le> x * exp x" using assms(2) by simp
  from W_principal(1,2) [OF assms(1) this] show ?thesis
    using assms(2) by (blast intro: xexp_inj)
qed

lemma W_mono:
  assumes "lambertw_principal lambertw" and "0 \<le> a" and "a \<le> b"
  shows "W lambertw a \<le> W lambertw b"
proof (rule ccontr)
  assume "\<not> W lambertw a \<le> W lambertw b"
  then have less: "W lambertw b < W lambertw a" by simp
  have b: "0 \<le> b" using assms(2,3) by simp
  have "W lambertw b * exp (W lambertw b) < W lambertw a * exp (W lambertw a)"
    using W_principal(1) [OF assms(1) b] less by (rule xexp_strict_mono)
  then have "b < a"
    by (simp only: W_principal(2) [OF assms(1) b] W_principal(2) [OF assms(1) assms(2)])
  with assms(3) show False by simp
qed

text \<open>
  Claim C8.  \<open>W z\<close> is the real part of branch \<open>k = 0\<close> of the library's Lambert W
  function, the imaginary part being dropped.  Where that branch is the principal
  one, nothing is lost for \<open>z \<ge> 0\<close>: the branch value is the real number \<open>W z\<close>,
  which is the non-negative solution of \<open>w * exp w = z\<close>; in particular \<open>W 0 = 0\<close>.
\<close>

theorem W_principal_branch:
  assumes "lambertw_principal lambertw"
  shows "W lambertw z = Re (lambertw z 0)
       \<and> (0 \<le> z \<longrightarrow> lambertw z 0 = complex_of_real (W lambertw z)
                  \<and> 0 \<le> W lambertw z \<and> W lambertw z * exp (W lambertw z) = z)
       \<and> W lambertw 0 = 0"
proof (intro conjI impI)
  show "W lambertw z = Re (lambertw z 0)"
    by (simp add: W_def)
next
  assume "0 \<le> z"
  from W_principal(3,1,2) [OF assms this]
  show "lambertw z 0 = complex_of_real (W lambertw z)"
    and "0 \<le> W lambertw z" and "W lambertw z * exp (W lambertw z) = z" .
next
  from W_roundtrip [OF assms, of 0] show "W lambertw 0 = 0" by simp
qed

theorem W_principal_branch_witness:
  "lambertw_principal lambertw_real
   \<and> W lambertw_real 1 = Re (lambertw_real 1 0)
   \<and> (0::real) \<le> 1 \<and> lambertw_real 1 0 = complex_of_real (W lambertw_real 1)
   \<and> 0 \<le> W lambertw_real 1 \<and> W lambertw_real 1 * exp (W lambertw_real 1) = 1
   \<and> W lambertw_real 0 = 0"
proof -
  have "(0::real) \<le> 1" by simp
  with W_principal_branch [OF lambertw_real_principal, of 1] lambertw_real_principal
  show ?thesis by blast
qed

section \<open>Properties of the doubles\<close>

lemma dbl_overflow_pos: "0 < dbl_overflow"
  by (simp add: dbl_overflow_def)

lemma fl_Fin: "representable x \<Longrightarrow> fl x = Fin x"
  by (auto simp: representable_def fl_def)

lemma fl_zero: "fl 0 = Fin 0"
  using dbl_overflow_pos by (simp add: fl_def)

lemma fl_mono: "x \<le> y \<Longrightarrow> np_le (fl x) (fl y)"
  using dbl_overflow_pos by (auto simp: fl_def)

lemma np_le_fl_bounds: "np_le NInf (fl x)" "np_le (fl x) PInf"
  by (simp_all add: fl_def)

lemma fl_nonneg: "0 \<le> x \<Longrightarrow> np_le (Fin 0) (fl x)"
  using dbl_overflow_pos by (auto simp: fl_def)

lemma np_add_Fin_mono: "np_le a b \<Longrightarrow> np_le (np_add a (Fin y)) (np_add b (Fin y))"
  by (cases a; cases b) (simp_all add: fl_mono np_le_fl_bounds)

lemma np_mul_pos_mono:
  "0 < k \<Longrightarrow> np_le a b \<Longrightarrow> np_le (np_mul (Fin k) a) (np_mul (Fin k) b)"
  by (cases a; cases b) (simp_all add: fl_mono np_le_fl_bounds inf_of_sign_def)

lemma np_exp_mono: "np_le a b \<Longrightarrow> np_le (np_exp a) (np_exp b)"
  by (cases a; cases b) (simp_all add: fl_mono np_le_fl_bounds fl_nonneg)

lemma np_exp_nonneg: "np_le a a \<Longrightarrow> np_le (Fin 0) (np_exp a)"
  by (cases a) (simp_all add: fl_nonneg)

lemma W_np_mono:
  assumes "lambertw_principal lambertw" and "np_le (Fin 0) a" and "np_le a b"
  shows "np_le (W_np lambertw a) (W_np lambertw b)"
  using assms(2,3) by (cases a; cases b) (simp_all add: W_mono [OF assms(1)])

lemma W_np_zero:
  assumes "lambertw_principal lambertw"
  shows "W_np lambertw (Fin 0) = Fin 0"
  using W_roundtrip [OF assms, of 0] by simp

lemma np_le_refl_left: "np_le a b \<Longrightarrow> np_le a a"
  by (cases a; cases b) simp_all

lemma one_less_dbl_overflow: "3 < dbl_overflow"
  by (simp add: dbl_overflow_def)

lemma representable_exp_nonpos:
  assumes "z \<le> 0"
  shows "representable (exp z)"
proof -
  have "exp z \<le> 1" using assms by simp
  moreover have "0 < exp z" by simp
  ultimately show ?thesis
    unfolding representable_def using one_less_dbl_overflow by linarith
qed

lemma np_exp_fl_nonpos:
  assumes "z \<le> 0"
  shows "\<exists>u. np_exp (fl z) = Fin u \<and> 0 \<le> u \<and> u \<le> 1"
proof (cases "z \<le> - dbl_overflow")
  case True
  then have "fl z = NInf"
    using dbl_overflow_pos by (simp add: fl_def)
  then show ?thesis by simp
next
  case False
  then have "fl z = Fin z"
    using assms dbl_overflow_pos by (simp add: fl_def)
  then show ?thesis
    using assms by (simp add: fl_Fin [OF representable_exp_nonpos [OF assms]])
qed


lemma representable_between:
  "0 \<le> x \<Longrightarrow> x \<le> y \<Longrightarrow> representable y \<Longrightarrow> representable x"
  unfolding representable_def by linarith

lemma exp_le_pow4:
  fixes x :: real
  assumes "x \<le> real n"
  shows "exp x \<le> 4 ^ n"
proof -
  have "exp x \<le> exp (real n)" using assms by simp
  also have "exp (real n) = exp 1 ^ n"
    using exp_of_nat_mult [of n "1::real"] by simp
  also have "\<dots> \<le> 4 ^ n"
  proof (rule power_mono)
    have "exp (1::real) \<le> 3" by (rule exp_le)
    then show "exp (1::real) \<le> 4" by simp
  qed simp
  finally show ?thesis .
qed

lemma exp_ge_pow2: "2 ^ n \<le> exp (real n)"
proof -
  have "(2::real) \<le> exp 1"
    using exp_ge_add_one_self [of "1::real"] by simp
  then have "(2::real) ^ n \<le> exp 1 ^ n"
    by (intro power_mono) simp_all
  also have "exp 1 ^ n = exp (real n)"
    using exp_of_nat_mult [of n "1::real"] by simp
  finally show ?thesis .
qed

lemma dbl_overflow_bounds: "2 ^ 1023 < dbl_overflow" "dbl_overflow \<le> 2 ^ 1024"
  by (simp_all add: dbl_overflow_def)

text \<open>No overflow in \<open>x * exp x\<close> up to \<open>x = 500\<close>, the largest ratio the sliders allow.\<close>

lemma xexp_representable:
  fixes x :: real
  assumes "0 \<le> x" and "x \<le> 500"
  shows "representable (x * exp x)"
proof -
  have "exp x \<le> 4 ^ 500"
    using exp_le_pow4 [of x 500] assms(2) by simp
  then have "x * exp x \<le> 512 * 4 ^ 500"
    using assms by (intro mult_mono) simp_all
  also have "(512::real) * 4 ^ 500 = 2 ^ 9 * (2 ^ 2) ^ 500" by simp
  also have "\<dots> = 2 ^ 1009"
    by (simp only: power_mult [symmetric] power_add [symmetric]) simp
  also have "(2::real) ^ 1009 \<le> 2 ^ 1023"
    by (rule power_increasing) simp_all
  finally have "x * exp x < dbl_overflow"
    using dbl_overflow_bounds(1) by linarith
  moreover have "0 \<le> x * exp x" using assms(1) by simp
  ultimately show ?thesis
    unfolding representable_def by linarith
qed

lemma representable_small: "\<bar>x\<bar> \<le> 2 ^ 1023 \<Longrightarrow> representable x"
  unfolding representable_def using dbl_overflow_bounds(1) by linarith

lemma exp_overflows:
  assumes "1024 \<le> x"
  shows "fl (exp x) = PInf"
proof -
  have "(2::real) ^ 1024 \<le> exp (real 1024)" by (rule exp_ge_pow2)
  also have "\<dots> \<le> exp x" using assms by simp
  finally have "dbl_overflow \<le> exp x"
    using dbl_overflow_bounds(2) by linarith
  then show ?thesis by (simp add: fl_def)
qed


section \<open>Properties of the kinetic trajectory\<close>

lemma W_zero: "lambertw_principal lambertw \<Longrightarrow> W lambertw 0 = 0"
  using W_roundtrip [of lambertw 0] by simp


lemma S_value:
  "K_M \<noteq> 0 \<Longrightarrow>
   S lambertw K_M v_max S_0 t =
     Inr (np_mul (Fin K_M)
           (W_np lambertw
             (np_mul (fl (S_0 / K_M))
               (np_exp (np_mul (fl (1 / K_M)) (np_add (np_mul (np_neg v_max) (Fin t)) (Fin S_0)))))))"
  by (simp add: S_def py_div_def)

lemma S_antimono_pos:
  assumes lw: "lambertw_principal lambertw"
    and K: "0 < K_M" and S0: "0 < S_0" and vm: "0 \<le> vm"
    and rb: "representable (1 / K_M)" and ra: "representable (S_0 / K_M)"
    and t: "t1 \<le> t2"
  shows "\<exists>s1 s2. S lambertw K_M (Fin vm) S_0 t1 = Inr s1 \<and> S lambertw K_M (Fin vm) S_0 t2 = Inr s2
           \<and> np_le s2 s1 \<and> np_le (Fin 0) s2"
proof -
  define e where "e t = np_mul (Fin (1 / K_M)) (np_add (np_mul (np_neg (Fin vm)) (Fin t)) (Fin S_0))" for t
  define g where "g t = np_mul (Fin (S_0 / K_M)) (np_exp (e t))" for t
  define s where "s t = np_mul (Fin K_M) (W_np lambertw (g t))" for t
  have eq: "S lambertw K_M (Fin vm) S_0 t = Inr (s t)" for t
    using K by (simp add: S_value s_def g_def e_def fl_Fin [OF ra] fl_Fin [OF rb])
  have x: "0 < S_0 / K_M" and k: "0 < 1 / K_M" using K S0 by simp_all
  have "vm * t1 \<le> vm * t2" using t vm by (rule mult_left_mono)
  then have "np_le (fl (- vm * t2)) (fl (- vm * t1))"
    by (intro fl_mono) simp
  then have "np_le (np_add (fl (- vm * t2)) (Fin S_0)) (np_add (fl (- vm * t1)) (Fin S_0))"
    by (rule np_add_Fin_mono)
  then have e: "np_le (e t2) (e t1)"
    unfolding e_def using k by (simp add: np_mul_pos_mono)
  then have "np_le (np_exp (e t2)) (np_exp (e t1))"
    by (rule np_exp_mono)
  then have g: "np_le (g t2) (g t1)"
    unfolding g_def by (rule np_mul_pos_mono [OF x])
  have "np_le (Fin 0) (np_exp (e t2))"
    using e by (intro np_exp_nonneg) (rule np_le_refl_left)
  then have "np_le (np_mul (Fin (S_0 / K_M)) (Fin 0)) (g t2)"
    unfolding g_def by (rule np_mul_pos_mono [OF x])
  then have g0: "np_le (Fin 0) (g t2)"
    by (simp add: fl_zero)
  have w: "np_le (W_np lambertw (g t2)) (W_np lambertw (g t1))"
    using lw g0 g by (rule W_np_mono)
  have "np_le (W_np lambertw (Fin 0)) (W_np lambertw (g t2))"
    by (rule W_np_mono [OF lw _ g0]) simp
  then have w0: "np_le (Fin 0) (W_np lambertw (g t2))"
    by (simp only: W_np_zero [OF lw])
  have "np_le (s t2) (s t1)"
    unfolding s_def using K w by (rule np_mul_pos_mono)
  moreover have "np_le (np_mul (Fin K_M) (Fin 0)) (s t2)"
    unfolding s_def using K w0 by (rule np_mul_pos_mono)
  then have "np_le (Fin 0) (s t2)"
    by (simp add: fl_zero)
  ultimately show ?thesis
    by (simp add: eq)
qed


text \<open>Without substrate the formula returns \<open>0\<close> at every non-negative time.\<close>

lemma S_zero:
  assumes lw: "lambertw_principal lambertw"
    and K: "0 < K_M" and vm: "0 \<le> vm" and t: "0 \<le> t"
    and rb: "representable (1 / K_M)"
  shows "S lambertw K_M (Fin vm) 0 t = Inr (Fin 0)"
proof -
  have k: "0 < 1 / K_M" using K by simp
  have "vm * t \<ge> 0" using vm t by simp
  then have c: "- vm * t \<le> 0" by simp
  have "\<exists>u. np_exp (np_mul (Fin (1 / K_M)) (np_add (fl (- vm * t)) (Fin 0))) = Fin u"
  proof (cases "fl (- vm * t)")
    case (Fin y)
    then have y: "y = - vm * t" "representable y"
      using dbl_overflow_pos by (auto simp: fl_def representable_def split: if_splits)
    have "1 / K_M * y \<le> 0"
      using k c y(1) by (simp add: mult_le_0_iff)
    then have "\<exists>u. np_exp (fl (1 / K_M * y)) = Fin u"
      using np_exp_fl_nonpos by blast
    then show ?thesis
      using Fin y(2) by (simp add: fl_Fin)
  next
    case PInf
    then show ?thesis using c dbl_overflow_pos by (simp add: fl_def split: if_splits)
  next
    case NInf
    then show ?thesis using k by (simp add: inf_of_sign_def)
  next
    case NaN
    then show ?thesis by (simp add: fl_def split: if_splits)
  qed
  then obtain u where
    "np_exp (np_mul (Fin (1 / K_M)) (np_add (fl (- vm * t)) (Fin 0))) = Fin u" ..
  moreover have "W lambertw 0 = 0"
    using W_roundtrip [OF lw, of 0] by simp
  ultimately show ?thesis
    using K by (simp add: S_value fl_Fin [OF rb] fl_zero)
qed


lemma xexp_bounds:
  fixes x :: real
  assumes "0 \<le> x" and "representable (x * exp x)"
  shows "representable x" and "representable (exp x)"
proof -
  have p: "0 \<le> x * exp x" using assms(1) by simp
  have "1 \<le> exp x" using assms(1) by simp
  then have "x * 1 \<le> x * exp x"
    using assms(1) by (rule mult_left_mono)
  then have "x \<le> x * exp x" by simp
  then show "representable x"
    using assms p unfolding representable_def by linarith
  show "representable (exp x)"
  proof (cases "1 \<le> x")
    case True
    have "0 \<le> exp x" by simp
    with True have "1 * exp x \<le> x * exp x"
      by (rule mult_right_mono)
    moreover have "0 < exp x" by simp
    ultimately show ?thesis
      using assms(2) p unfolding representable_def by linarith
  next
    case False
    then have "exp x \<le> exp 1" by simp
    moreover have "exp (1::real) \<le> 3" by (rule exp_le)
    moreover have "0 < exp x" by simp
    ultimately show ?thesis
      unfolding representable_def using one_less_dbl_overflow by linarith
  qed
qed

lemma S_at_zero:
  assumes lw: "lambertw_principal lambertw"
    and K: "0 < K_M" and S0: "0 \<le> S_0"
    and r0: "representable S_0" and rb: "representable (1 / K_M)"
    and rx: "representable (S_0 / K_M * exp (S_0 / K_M))"
  shows "S lambertw K_M (Fin vm) S_0 0 = Inr (Fin S_0)"
proof -
  define x where "x = S_0 / K_M"
  have x: "0 \<le> x" using K S0 by (simp add: x_def)
  have rx': "representable (x * exp x)" using rx by (simp only: x_def)
  note xb = xexp_bounds [OF x rx']
  have kx: "1 / K_M * S_0 = x" "K_M * x = S_0"
    using K by (simp_all add: x_def)
  have "np_add (np_mul (np_neg (Fin vm)) (Fin 0)) (Fin S_0) = Fin S_0"
    by (simp add: fl_zero fl_Fin [OF r0])
  then have "np_mul (fl (1 / K_M)) (np_add (np_mul (np_neg (Fin vm)) (Fin 0)) (Fin S_0)) = Fin x"
    by (simp only: fl_Fin [OF rb] np_mul.simps kx(1) fl_Fin [OF xb(1)])
  then have "np_exp (np_mul (fl (1 / K_M)) (np_add (np_mul (np_neg (Fin vm)) (Fin 0)) (Fin S_0)))
             = Fin (exp x)"
    by (simp only: np_exp.simps fl_Fin [OF xb(2)])
  then have "np_mul (fl x)
               (np_exp (np_mul (fl (1 / K_M)) (np_add (np_mul (np_neg (Fin vm)) (Fin 0)) (Fin S_0))))
             = Fin (x * exp x)"
    by (simp only: fl_Fin [OF xb(1)] np_mul.simps fl_Fin [OF rx'])
  then have "W_np lambertw (np_mul (fl x)
               (np_exp (np_mul (fl (1 / K_M)) (np_add (np_mul (np_neg (Fin vm)) (Fin 0)) (Fin S_0)))))
             = Fin x"
    by (simp only: W_np.simps W_roundtrip [OF lw x])
  then have "np_mul (Fin K_M) (W_np lambertw (np_mul (fl x)
               (np_exp (np_mul (fl (1 / K_M)) (np_add (np_mul (np_neg (Fin vm)) (Fin 0)) (Fin S_0))))))
             = Fin S_0"
    by (simp only: np_mul.simps kx(2) fl_Fin [OF r0])
  then show ?thesis
    using K by (simp only: S_value [of K_M] x_def)
qed

lemma S_antimono_np:
  assumes lw: "lambertw_principal lambertw"
    and K: "0 < K_M" and S0: "0 \<le> S_0" and vm: "0 \<le> vm"
    and rb: "representable (1 / K_M)" and ra: "representable (S_0 / K_M)"
    and t: "0 \<le> t1" "t1 \<le> t2"
  shows "\<exists>s1 s2. S lambertw K_M (Fin vm) S_0 t1 = Inr s1 \<and> S lambertw K_M (Fin vm) S_0 t2 = Inr s2
           \<and> np_le s2 s1 \<and> np_le (Fin 0) s2"
proof (cases "S_0 = 0")
  case True
  have "0 \<le> t2" using t by simp
  from S_zero [OF lw K vm t(1) rb] S_zero [OF lw K vm this rb]
  show ?thesis by (simp add: True)
next
  case False
  with S0 have "0 < S_0" by simp
  from S_antimono_pos [OF lw K this vm rb ra t(2)] show ?thesis .
qed

lemma S_range:
  assumes lw: "lambertw_principal lambertw"
    and K: "0 < K_M" and S0: "0 \<le> S_0" and vm: "0 \<le> vm" and t: "0 \<le> t"
    and r0: "representable S_0" and rb: "representable (1 / K_M)"
    and rx: "representable (S_0 / K_M * exp (S_0 / K_M))"
  shows "\<exists>s. S lambertw K_M (Fin vm) S_0 t = Inr (Fin s) \<and> 0 \<le> s \<and> s \<le> S_0"
proof -
  have "0 \<le> S_0 / K_M" using K S0 by simp
  then have ra: "representable (S_0 / K_M)"
    using rx by (rule xexp_bounds(1))
  have "(0::real) \<le> 0" by simp
  from S_antimono_np [OF lw K S0 vm rb ra this t] obtain s1 s2 where
    "S lambertw K_M (Fin vm) S_0 0 = Inr s1" "S lambertw K_M (Fin vm) S_0 t = Inr s2"
    "np_le s2 s1" "np_le (Fin 0) s2"
    by blast
  moreover have "S lambertw K_M (Fin vm) S_0 0 = Inr (Fin S_0)"
    using lw K S0 r0 rb rx by (rule S_at_zero)
  ultimately have "S lambertw K_M (Fin vm) S_0 t = Inr s2" "np_le s2 (Fin S_0)" "np_le (Fin 0) s2"
    by simp_all
  then show ?thesis
    by (cases s2) simp_all
qed

lemma k_1_bounds: "1 \<le> k_1" "0 < k_1"
  by (simp_all add: k_1_def)

lemma ES_range:
  assumes s: "S' t = Inr (Fin s)" "0 \<le> s" "s \<le> S_0"
    and K: "0 < K_M" and E0: "0 \<le> E_0" and t: "0 \<le> t"
    and rE: "representable E_0" and rES: "representable (E_0 * S_0)"
    and rK: "representable ((K_M + S_0) * k_1)"
  shows "\<exists>es. ES E_0 K_M t S' = Inr (Fin es) \<and> 0 \<le> es \<and> es \<le> E_0"
proof -
  have ks: "0 < K_M + s" using K s(2) by simp
  have "0 \<le> E_0 * s" using E0 s(2) by simp
  moreover have "E_0 * s \<le> E_0 * S_0" using s(3) E0 by (rule mult_left_mono)
  ultimately have "representable (E_0 * s)"
    using rES by (rule representable_between)
  then have n1: "fl (E_0 * s) = Fin (E_0 * s)"
    by (rule fl_Fin)
  have "(K_M + s) * 1 \<le> (K_M + s) * k_1"
    using ks k_1_bounds(1) by (intro mult_left_mono) simp_all
  moreover have "(K_M + s) * k_1 \<le> (K_M + S_0) * k_1"
    using s(3) k_1_bounds(2) by (intro mult_right_mono) simp_all
  ultimately have le: "K_M + s \<le> (K_M + s) * k_1" "(K_M + s) * k_1 \<le> (K_M + S_0) * k_1"
    by simp_all
  have pos: "0 \<le> (K_M + s) * k_1" using ks k_1_bounds(2) by simp
  have r2: "representable ((K_M + s) * k_1)"
    using pos le(2) rK by (rule representable_between)
  have "representable (K_M + s)"
    using ks le(1) r2 by (intro representable_between [of "K_M + s" "(K_M + s) * k_1"]) simp_all
  then have n2: "fl (K_M + s) = Fin (K_M + s)"
    by (rule fl_Fin)
  define q where "q = E_0 * s / (K_M + s)"
  have q: "0 \<le> q" "q \<le> E_0"
  proof -
    show "0 \<le> q" using E0 s(2) ks by (simp add: q_def)
    have "s / (K_M + s) \<le> 1" using ks K by simp
    then have "E_0 * (s / (K_M + s)) \<le> E_0 * 1"
      using E0 by (rule mult_left_mono)
    then show "q \<le> E_0" by (simp add: q_def)
  qed
  have "representable q" using q rE by (rule representable_between)
  then have qv: "np_div (Fin (E_0 * s)) (Fin (K_M + s)) = Fin q"
    using ks by (simp add: fl_Fin q_def)
  have "\<bar>- (K_M + s) * k_1\<bar> = \<bar>(K_M + s) * k_1\<bar>"
    by (simp only: mult_minus_left abs_minus_cancel)
  then have "representable (- (K_M + s) * k_1)"
    using r2 by (simp only: representable_def)
  then have m2: "fl (- (K_M + s) * k_1) = Fin (- (K_M + s) * k_1)"
    by (rule fl_Fin)
  have "0 \<le> (K_M + s) * k_1 * t" using pos t by simp
  moreover have "- (K_M + s) * k_1 * t = - ((K_M + s) * k_1 * t)"
    by (simp only: mult_minus_left)
  ultimately have "- (K_M + s) * k_1 * t \<le> 0" by linarith
  from np_exp_fl_nonpos [OF this] obtain u where
    u: "np_exp (fl (- (K_M + s) * k_1 * t)) = Fin u" "0 \<le> u" "u \<le> 1"
    by blast
  have "representable (1 + - u)"
    using u(2,3) one_less_dbl_overflow unfolding representable_def by linarith
  then have y: "np_sub (Fin 1) (Fin u) = Fin (1 - u)"
    by (simp add: np_sub_def fl_Fin)
  have es: "0 \<le> q * (1 - u)" "q * (1 - u) \<le> E_0"
  proof -
    show "0 \<le> q * (1 - u)" using q(1) u(3) by simp
    have "q * (1 - u) \<le> q * 1"
      using q(1) u(2) by (intro mult_left_mono) simp_all
    then show "q * (1 - u) \<le> E_0" using q(2) by simp
  qed
  have "representable (q * (1 - u))" using es rE by (rule representable_between)
  then have "fl (q * (1 - u)) = Fin (q * (1 - u))"
    by (rule fl_Fin)
  then have "ES E_0 K_M t S' = Inr (Fin (q * (1 - u)))"
    unfolding ES_def s(1)
    by (simp only: sum.case np_mul.simps np_add.simps np_neg.simps n1 n2 qv m2 u(1) y)
  then show ?thesis using es by simp
qed

lemma E_value:
  assumes "ES' t S' = Inr (Fin es)" and "0 \<le> es" and "es \<le> E_0" and "representable E_0"
  shows "E E_0 S' t ES' = Inr (Fin (E_0 - es))"
proof -
  have "0 \<le> E_0 - es" "E_0 - es \<le> E_0" using assms(2,3) by simp_all
  then have "representable (E_0 - es)"
    using assms(4) by (rule representable_between)
  then show ?thesis
    by (simp add: E_def assms(1) np_sub_def fl_Fin)
qed

lemma conservation_pre:
  assumes "lambertw_principal lambertw"
    and "0 < K_M" and "0 \<le> S_0" and "0 \<le> E_0" and "0 \<le> vm" and "0 \<le> t"
    and "representable S_0" and "representable (1 / K_M)"
    and "representable (S_0 / K_M * exp (S_0 / K_M))"
    and "representable E_0" and "representable (E_0 * S_0)"
    and "representable ((K_M + S_0) * k_1)"
  shows "\<exists>es e. ES E_0 K_M t (S lambertw K_M (Fin vm) S_0) = Inr (Fin es)
             \<and> E E_0 (S lambertw K_M (Fin vm) S_0) t (ES E_0 K_M) = Inr (Fin e)
             \<and> e + es = E_0"
proof -
  from S_range [OF assms(1,2,3,5,6,7,8,9)] obtain s where
    s: "S lambertw K_M (Fin vm) S_0 t = Inr (Fin s)" "0 \<le> s" "s \<le> S_0"
    by blast
  from ES_range [where S' = "S lambertw K_M (Fin vm) S_0" and t = t, OF s assms(2,4,6,10,11,12)]
  obtain es where
    es: "ES E_0 K_M t (S lambertw K_M (Fin vm) S_0) = Inr (Fin es)" "0 \<le> es" "es \<le> E_0"
    by blast
  from E_value [where ES' = "ES E_0 K_M" and S' = "S lambertw K_M (Fin vm) S_0" and t = t,
      OF es assms(10)]
  have "E E_0 (S lambertw K_M (Fin vm) S_0) t (ES E_0 K_M) = Inr (Fin (E_0 - es))" .
  with es(1) show ?thesis by simp
qed


lemma comprehension_total:
  "(\<And>t. f t = Inr (g t)) \<Longrightarrow> comprehension f ts = Inr (map g ts)"
  by (induction ts) simp_all

lemma S_values_nonincreasing:
  assumes lw: "lambertw_principal lambertw"
    and K: "0 < K_M" and S0: "0 \<le> S_0" and vm: "0 \<le> vm"
    and rb: "representable (1 / K_M)" and ra: "representable (S_0 / K_M)"
    and T: "sorted_wrt (<) T" and T0: "\<forall>t\<in>set T. 0 \<le> t"
  shows "\<exists>ss. comprehension (S lambertw K_M (Fin vm) S_0) T = Inr ss \<and> length ss = length T
            \<and> (\<forall>i j. i < j \<and> j < length T \<longrightarrow> np_le (ss ! j) (ss ! i))"
proof -
  define g where "g t = np_mul (Fin K_M)
           (W_np lambertw
             (np_mul (fl (S_0 / K_M))
               (np_exp (np_mul (fl (1 / K_M)) (np_add (np_mul (np_neg (Fin vm)) (Fin t)) (Fin S_0))))))"
    for t
  have eq: "S lambertw K_M (Fin vm) S_0 t = Inr (g t)" for t
    using K by (simp only: g_def) (rule S_value, simp)
  then have all: "comprehension (S lambertw K_M (Fin vm) S_0) T = Inr (map g T)"
    by (rule comprehension_total)
  have "np_le (map g T ! j) (map g T ! i)" if "i < j" "j < length T" for i j
  proof -
    have "T ! i < T ! j"
      using T that by (simp add: sorted_wrt_iff_nth_less)
    then have le: "T ! i \<le> T ! j" by simp
    have "0 \<le> T ! i" using T0 that by simp
    from S_antimono_np [OF lw K S0 vm rb ra this le]
    have "np_le (g (T ! j)) (g (T ! i))" by (simp add: eq)
    then show ?thesis using that by simp
  qed
  then show ?thesis
    unfolding all by auto
qed

text \<open>
  The parameter set \<open>K_M = 0.01\<close>, \<open>K_cat = 5\<close>, \<open>S_0 = 15\<close>, \<open>E_0 = 0.1\<close>, where
  \<open>np.exp\<close> overflows: the substrate is \<open>inf\<close> at the first two samples.
\<close>

lemma S_overflow:
  assumes "0 \<le> t" and "t \<le> 1"
  shows "S lambertw (1 / 100) (Fin (1 / 2)) 15 t = Inr PInf"
proof -
  have r: "representable (15 / (1 / 100))" "representable (1 / (1 / 100))"
    by (rule representable_small, simp)+
  have "\<bar>- (1 / 2) * t\<bar> \<le> 2 ^ 1023" using assms by simp
  then have c: "fl (- (1 / 2) * t) = Fin (- (1 / 2) * t)"
    by (intro fl_Fin representable_small)
  have "\<bar>- (1 / 2) * t + 15\<bar> \<le> 2 ^ 1023" using assms by simp
  then have d: "fl (- (1 / 2) * t + 15) = Fin (- (1 / 2) * t + 15)"
    by (intro fl_Fin representable_small)
  have "\<bar>1 / (1 / 100) * (- (1 / 2) * t + 15)\<bar> \<le> 2 ^ 1023" using assms by simp
  then have e: "fl (1 / (1 / 100) * (- (1 / 2) * t + 15))
              = Fin (1 / (1 / 100) * (- (1 / 2) * t + 15))"
    by (intro fl_Fin representable_small)
  have "1024 \<le> 1 / (1 / 100) * (- (1 / 2) * t + 15)" using assms by simp
  then have f: "fl (exp (1 / (1 / 100) * (- (1 / 2) * t + 15))) = PInf"
    by (rule exp_overflows)
  have "np_mul (Fin (1 / 100))
          (W_np lambertw
            (np_mul (fl (15 / (1 / 100)))
              (np_exp (np_mul (fl (1 / (1 / 100)))
                 (np_add (np_mul (np_neg (Fin (1 / 2))) (Fin t)) (Fin 15)))))) = PInf"
    by (simp only: fl_Fin [OF r(1)] fl_Fin [OF r(2)] np_neg.simps np_mul.simps np_add.simps
          np_exp.simps c d e f W_np.simps np_sign.simps)
       (simp add: inf_of_sign_def)
  then show ?thesis
    by (simp only: S_value [of "1 / 100"])
qed

lemma ES_E_overflow:
  assumes "S' t = Inr PInf" and "0 < E_0"
  shows "ES E_0 K_M t S' = Inr NaN" and "E E_0 S' t (ES E_0 K_M) = Inr NaN"
proof -
  show "ES E_0 K_M t S' = Inr NaN"
    using assms(2) by (simp add: ES_def assms(1) inf_of_sign_def)
  then show "E E_0 S' t (ES E_0 K_M) = Inr NaN"
    by (simp add: E_def np_sub_def)
qed


text \<open>
  With the subnormal \<open>K_M = 2^-1024\<close> the quotient \<open>1 / K_M\<close> overflows; for \<open>S_0 = 0\<close>
  the exponent at \<open>t = 0\<close> is \<open>inf * 0\<close>.
\<close>

lemma S_nan_at_zero:
  assumes "fl (1 / K_M) = PInf" and "0 < K_M"
  shows "S lambertw K_M (Fin vm) 0 0 = Inr NaN"
  using assms(2) by (simp add: S_value assms(1) fl_zero inf_of_sign_def)

lemma S_zero_after:
  assumes "fl (1 / K_M) = PInf" and "0 < K_M" and "lambertw_principal lambertw"
    and "0 < vm * t" and "representable (vm * t)"
  shows "S lambertw K_M (Fin vm) 0 t = Inr (Fin 0)"
proof -
  have "representable (- (vm * t))"
    using assms(5) by (simp add: representable_def)
  then have "fl (- (vm * t)) = Fin (- (vm * t))" by (rule fl_Fin)
  then show ?thesis
    using assms(2,4)
    by (simp add: S_value assms(1) fl_zero inf_of_sign_def W_zero [OF assms(3)])
qed


text \<open>The slider values \<open>K_M = 0.7\<close>, \<open>S_0 = 15\<close>, \<open>E_0 = 0.1\<close> are far from overflow.\<close>

lemma slider_values_representable:
  "representable 15" "representable (1 / (7 / 10))" "representable (15 / (7 / 10))"
  "representable (15 / (7 / 10) * exp (15 / (7 / 10)))"
  "representable (1 / 10)" "representable (1 / 10 * 15)" "representable ((7 / 10 + 15) * k_1)"
proof -
  show "representable (15 / (7 / 10) * exp (15 / (7 / 10)))"
    by (rule xexp_representable) simp_all
qed (rule representable_small, simp add: k_1_def)+


text \<open>
  Claim C1 says that \<open>E(t) + ES(t) = E_0\<close> for every parameter set with \<open>K_M > 0\<close>,
  \<open>E_0 \<ge> 0\<close>, \<open>S_0 \<ge> 0\<close> and every sampled time.  With \<open>K_M = 0.01\<close>, \<open>K_cat = 5\<close>,
  \<open>S_0 = 15\<close>, \<open>E_0 = 0.1\<close> the exponential overflows at the sample \<open>t = 0.01\<close>:
  \<open>S\<close> is \<open>inf\<close>, \<open>ES\<close> is \<open>inf / inf\<close>, and \<open>ES\<close>, \<open>E\<close> and their sum are NaN.
\<close>

theorem conservation_counterexample:
  "ES (1 / 10) (1 / 100) (1 / 100) (S lambertw_real (1 / 100) (Fin (1 / 2)) 15) = Inr NaN
   \<and> E (1 / 10) (S lambertw_real (1 / 100) (Fin (1 / 2)) 15) (1 / 100) (ES (1 / 10) (1 / 100))
       = Inr NaN
   \<and> np_add NaN NaN \<noteq> Fin (1 / 10)"
proof -
  have "S lambertw_real (1 / 100) (Fin (1 / 2)) 15 (1 / 100) = Inr PInf"
    by (rule S_overflow) simp_all
  from ES_E_overflow [of "S lambertw_real (1 / 100) (Fin (1 / 2)) 15" "1 / 100" "1 / 10" "1 / 100",
      OF this]
  show ?thesis by simp
qed


text \<open>
  Claim C1, amended.  For \<open>K_M > 0\<close>, \<open>S_0 \<ge> 0\<close>, \<open>E_0 \<ge> 0\<close>, a finite \<open>v_max \<ge> 0\<close> and
  every time \<open>t \<ge> 0\<close>, if no intermediate result overflows, that is if \<open>S_0\<close>,
  \<open>1 / K_M\<close>, \<open>S_0 / K_M * exp (S_0 / K_M)\<close>, \<open>E_0\<close>, \<open>E_0 * S_0\<close> and
  \<open>(K_M + S_0) * k_1\<close> are below the overflow threshold, then \<open>ES(t)\<close> and \<open>E(t)\<close> are
  finite and \<open>E(t) + ES(t) = E_0\<close>, because \<open>E(t)\<close> is computed as \<open>E_0 - ES(t)\<close>.
\<close>

theorem conservation:
  assumes "lambertw_principal lambertw"
    and "0 < K_M" and "0 \<le> S_0" and "0 \<le> E_0" and "0 \<le> vm" and "0 \<le> t"
    and "representable S_0" and "representable (1 / K_M)"
    and "representable (S_0 / K_M * exp (S_0 / K_M))"
    and "representable E_0" and "representable (E_0 * S_0)"
    and "representable ((K_M + S_0) * k_1)"
  shows "\<exists>es e. ES E_0 K_M t (S lambertw K_M (Fin vm) S_0) = Inr (Fin es)
             \<and> E E_0 (S lambertw K_M (Fin vm) S_0) t (ES E_0 K_M) = Inr (Fin e)
             \<and> e + es = E_0"
  using assms by (rule conservation_pre)


theorem conservation_witness:
  "lambertw_principal lambertw_real \<and>
   (\<exists>es e. ES (1 / 10) (7 / 10) 2 (S lambertw_real (7 / 10) (Fin (1 / 2)) 15) = Inr (Fin es)
      \<and> E (1 / 10) (S lambertw_real (7 / 10) (Fin (1 / 2)) 15) 2 (ES (1 / 10) (7 / 10))
          = Inr (Fin e)
      \<and> e + es = 1 / 10)"
proof -
  have h: "(0::real) < 7 / 10" "(0::real) \<le> 15" "(0::real) \<le> 1 / 10" "(0::real) \<le> 1 / 2"
    "(0::real) \<le> 2" by simp_all
  from conservation [OF lambertw_real_principal h slider_values_representable(1,2,4,5,6,7)]
    lambertw_real_principal
  show ?thesis by blast
qed








text \<open>
  Claim C5 says that the sampled substrate is non-increasing for every valid
  parameter set.  With the subnormal \<open>K_M = 2^-1024\<close> and \<open>S_0 = 0\<close> the samples at
  \<open>t = 0\<close> and \<open>t = 0.01\<close> are NaN and \<open>0\<close>, and \<open>0 <= NaN\<close> is false.
\<close>

theorem S_nonincreasing_counterexample:
  "comprehension (S lambertw_real (1 / 2 ^ 1024) (Fin (1 / 2)) 0) [0, 1 / 100]
     = Inr [NaN, Fin 0]
   \<and> \<not> np_le (Fin 0) NaN"
proof -
  have "dbl_overflow \<le> 1 / (1 / 2 ^ 1024)"
    using dbl_overflow_bounds(2) by simp
  then have b: "fl (1 / (1 / 2 ^ 1024)) = PInf"
    by (simp only: fl_def if_True)
  have k: "(0::real) < 1 / 2 ^ 1024" by simp
  have "S lambertw_real (1 / 2 ^ 1024) (Fin (1 / 2)) 0 0 = Inr NaN"
    using b k by (rule S_nan_at_zero)
  moreover have "S lambertw_real (1 / 2 ^ 1024) (Fin (1 / 2)) 0 (1 / 100) = Inr (Fin 0)"
    using b k lambertw_real_principal
    by (rule S_zero_after) (simp, rule representable_small, simp)
  ultimately show ?thesis
    by (simp only: comprehension.simps sum.case np_le.simps) simp
qed

text \<open>
  Claim C5, amended.  For \<open>K_M > 0\<close>, \<open>S_0 \<ge> 0\<close>, a finite \<open>v_max \<ge> 0\<close> and every
  strictly increasing non-negative time grid, if \<open>1 / K_M\<close> and \<open>S_0 / K_M\<close> are
  below the overflow threshold, the substrate values \<open>[S(t) for t in T]\<close> are
  non-increasing along the grid: a later sample is never above an earlier one.
  The samples may be \<open>inf\<close> where the exponential overflows; none is NaN.
\<close>

theorem S_nonincreasing:
  assumes "lambertw_principal lambertw"
    and "0 < K_M" and "0 \<le> S_0" and "0 \<le> vm"
    and "representable (1 / K_M)" and "representable (S_0 / K_M)"
    and "sorted_wrt (<) T" and "\<forall>t\<in>set T. 0 \<le> t"
  shows "\<exists>ss. comprehension (S lambertw K_M (Fin vm) S_0) T = Inr ss \<and> length ss = length T
            \<and> (\<forall>i j. i < j \<and> j < length T \<longrightarrow> np_le (ss ! j) (ss ! i))"
  using assms by (rule S_values_nonincreasing)


theorem S_nonincreasing_witness:
  "lambertw_principal lambertw_real \<and> sorted_wrt (<) [0, 1 / 100 :: real]
   \<and> (\<exists>ss. comprehension (S lambertw_real (7 / 10) (Fin (1 / 2)) 15) [0, 1 / 100] = Inr ss
         \<and> length ss = 2 \<and> np_le (ss ! 1) (ss ! 0))"
proof -
  have h: "(0::real) < 7 / 10" "(0::real) \<le> 15" "(0::real) \<le> 1 / 2"
    and T: "sorted_wrt (<) [0, 1 / 100 :: real]" "\<forall>t\<in>set [0, 1 / 100 :: real]. 0 \<le> t"
    by simp_all
  from S_nonincreasing [OF lambertw_real_principal h slider_values_representable(2,3) T]
  obtain ss where
    ss: "comprehension (S lambertw_real (7 / 10) (Fin (1 / 2)) 15) [0, 1 / 100] = Inr ss"
        "length ss = length [0, 1 / 100 :: real]"
    and mono: "\<forall>i j. i < j \<and> j < length [0, 1 / 100 :: real] \<longrightarrow> np_le (ss ! j) (ss ! i)"
    by blast
  from mono have "np_le (ss ! 1) (ss ! 0)" by simp
  moreover from ss(2) have "length ss = 2" by simp
  ultimately show ?thesis
    using ss(1) T(1) lambertw_real_principal by blast
qed








section \<open>Properties of the derived parameters and of the printed ratio\<close>

lemma K_M_global_value: "K_M_global = 3001 / 550"
  by (simp add: K_M_global_def k_minus_1_def K_cat_global_def k_1_def)

lemma v_max_global_value: "v_max_global = 15"
  by (simp add: v_max_global_def K_cat_global_def E_0_global_def)

text \<open>
  Claim C7 says that \<open>k_1 \<le> 0\<close> is rejected with \<open>InvalidArgument\<close>.  The assignments
  have no such check: a negative \<open>k_1\<close> yields a negative \<open>K_M\<close>.
\<close>

theorem deriveParameters_negative_counterexample:
  "deriveParameters (- 1) (1 / 100) 30 (1 / 2) = Inr (- (3001 / 100), 15)"
  by (simp add: deriveParameters_def)

text \<open>
  Claim C7, amended.  \<open>K_M = (k_minus_1 + k_cat) / k_1\<close> and \<open>v_max = k_cat * E_0\<close>
  for every \<open>k_1 \<noteq> 0\<close>, of either sign; for \<open>k_1 = 0\<close> the division raises
  \<open>ZeroDivisionError\<close>.  The literals of the notebook, \<open>k_1 = 5.5\<close>,
  \<open>k_minus_1 = 0.01\<close>, \<open>k_cat = 30\<close> and \<open>E_0 = 0.5\<close>, give \<open>K_M = 3001/550\<close>, which
  is \<open>5.4564\<close> to four decimals, and \<open>v_max = 15\<close>.
\<close>

theorem deriveParameters_value:
  "(k1 \<noteq> 0 \<longrightarrow> deriveParameters k1 km1 kcat e0 = Inr ((km1 + kcat) / k1, kcat * e0))
   \<and> deriveParameters 0 km1 kcat e0 = Inl ZeroDivisionError
   \<and> deriveParameters k_1 k_minus_1 K_cat_global E_0_global = Inr (K_M_global, v_max_global)
   \<and> deriveParameters (11 / 2) (1 / 100) 30 (1 / 2) = Inr (3001 / 550, 15)
   \<and> \<bar>3001 / 550 - 54564 / 10000\<bar> \<le> (5 / 100000 :: real)"
proof (intro conjI impI)
  show "deriveParameters k_1 k_minus_1 K_cat_global E_0_global = Inr (K_M_global, v_max_global)"
    by (simp add: deriveParameters_def K_M_global_def v_max_global_def k_1_def)
qed (simp_all add: deriveParameters_def)

theorem deriveParameters_value_witness:
  "(2 :: real) \<noteq> 0 \<and> deriveParameters 2 1 3 5 = Inr (2, 15)"
  using deriveParameters_value [of 2 1 3 5] by simp

text \<open>
  Claim C6 says that the diagnostic is \<open>E_0 / (K_M + S_0)\<close>, which is also what the
  markdown cell announces.  The template expression divides by \<open>K_M + E_0\<close> instead
  and rounds to three decimals: with the notebook's constants it prints \<open>0.084\<close>,
  whereas \<open>E_0 / (K_M + S_0)\<close> is \<open>275/11251\<close>, that is \<open>0.024\<close> to three decimals.
\<close>

theorem assumptionRatio_notebook:
  "assumptionRatio E_0_global K_M_global = Inr (84 / 1000)
   \<and> E_0_global / (K_M_global + S_0_global) = 275 / 11251
   \<and> round_py (E_0_global / (K_M_global + S_0_global)) 3 = 24 / 1000"
  by (simp add: assumptionRatio_def round_py_def K_M_global_value E_0_global_def
        S_0_global_def Let_def)

end
